theory Spec2Isabelle
  imports Main "HOL-Library.Multiset"
begin

section \<open>Values read from the subject files\<close>

text \<open>
  The subject files are JSON. The fields the program reads (\<open>subject\<close>, \<open>topic\<close>,
  \<open>grade\<close>, \<open>type\<close>, \<open>question\<close>, \<open>answer\<close>, the entries of \<open>choices\<close>) hold
  scalars: \<open>null\<close> (Python \<open>None\<close>), booleans, integers and strings. Fractional
  numbers and nested containers in these fields are outside the model. A string is a
  sequence of code points below 256 (Basic Latin and Latin-1), one \<open>char\<close> each:
  \<open>str.strip\<close> and \<open>str.lower\<close> are modelled as Python defines them on every one of
  these characters. Text with a code point from 256 on is outside the model.
\<close>

datatype jval = JNull | JBool bool | JInt int | JStr string

text \<open>Python's \<open>==\<close> on these values: \<open>bool\<close> is a subclass of \<open>int\<close>, so
  \<open>True == 1\<close> and \<open>False == 0\<close>; values of different kinds are unequal.\<close>

fun py_eq :: "jval \<Rightarrow> jval \<Rightarrow> bool" where
  "py_eq JNull JNull = True"
| "py_eq (JBool a) (JBool b) = (a = b)"
| "py_eq (JBool a) (JInt i) = ((if a then 1 else 0) = i)"
| "py_eq (JInt i) (JBool b) = (i = (if b then 1 else 0))"
| "py_eq (JInt i) (JInt j) = (i = j)"
| "py_eq (JStr s) (JStr t) = (s = t)"
| "py_eq _ _ = False"

text \<open>\<open>x in (a, b, ...)\<close> on a tuple: some member equals \<open>x\<close>.\<close>

definition py_in :: "jval \<Rightarrow> jval list \<Rightarrow> bool" where
  "py_in x ys = list_ex (\<lambda>y. py_eq x y) ys"

subsection \<open>\<open>str\<close>, \<open>strip\<close> and \<open>lower\<close>\<close>

definition digit_char :: "nat \<Rightarrow> char" where
  "digit_char d = char_of (48 + d)"

fun str_nat :: "nat \<Rightarrow> string" where
  "str_nat n = (if n < 10 then [digit_char n] else str_nat (n div 10) @ [digit_char (n mod 10)])"

declare str_nat.simps [simp del]

definition str_int :: "int \<Rightarrow> string" where
  "str_int i = (if i < 0 then CHR ''-'' # str_nat (nat (- i)) else str_nat (nat i))"

fun py_str :: "jval \<Rightarrow> string" where
  "py_str JNull = ''None''"
| "py_str (JBool b) = (if b then ''True'' else ''False'')"
| "py_str (JInt i) = str_int i"
| "py_str (JStr s) = s"

text \<open>The characters for which \<open>str.isspace\<close> holds, the ones \<open>str.strip\<close> removes:
  tab, line feed, vertical tab, form feed, carriage return, the four separators 28 to
  31, the space, next line (133) and the no-break space (160).\<close>

definition is_space :: "char \<Rightarrow> bool" where
  "is_space c =
    (let n = (of_char c :: nat)
     in (9 \<le> n \<and> n \<le> 13) \<or> (28 \<le> n \<and> n \<le> 32) \<or> n = 133 \<or> n = 160)"

text \<open>\<open>str.lower\<close> on one character: the letters A to Z, and the Latin-1 capitals 192
  to 222 but the multiplication sign 215, move up by 32; no other character changes.\<close>

definition lower_char :: "char \<Rightarrow> char" where
  "lower_char c =
    (let n = (of_char c :: nat)
     in if (65 \<le> n \<and> n \<le> 90) \<or> (192 \<le> n \<and> n \<le> 222 \<and> n \<noteq> 215) then char_of (n + 32) else c)"

definition py_strip :: "string \<Rightarrow> string" where
  "py_strip s = rev (dropWhile is_space (rev (dropWhile is_space s)))"

definition py_lower :: "string \<Rightarrow> string" where
  "py_lower s = map lower_char s"

text \<open>
  \<^verbatim>\<open>
  def normalize_answer(ans):
      if ans is None:
          return ""
      return str(ans).strip().lower()
  \<close>
\<close>

definition normalize_answer :: "jval \<Rightarrow> string" where
  "normalize_answer ans = (if ans = JNull then '''' else py_lower (py_strip (py_str ans)))"

section \<open>Questions and blocks\<close>

text \<open>
  A question and a block are dictionaries. Each key the program reads is a field of a
  record; \<open>None\<close> means that the key is absent, \<open>Some v\<close> that it is present with
  value \<open>v\<close> (\<open>Some JNull\<close> for an explicit \<open>null\<close>).
\<close>

record question =
  q_type :: "jval option"
  q_question :: "jval option"
  q_answer :: "jval option"
  q_choices :: "jval list option"

record block =
  b_subject :: "jval option"
  b_topic :: "jval option"
  b_grade :: "jval option"
  b_questions :: "question list option"

text \<open>\<open>d.get(key)\<close> and \<open>d.get(key, default)\<close> on a field.\<close>

definition dict_get :: "'a option \<Rightarrow> 'a \<Rightarrow> 'a" where
  "dict_get field dflt = (case field of None \<Rightarrow> dflt | Some v \<Rightarrow> v)"

text \<open>\<open>"type" in q and "question" in q and "answer" in q\<close>\<close>

definition has_required_keys :: "question \<Rightarrow> bool" where
  "has_required_keys q = (q_type q \<noteq> None \<and> q_question q \<noteq> None \<and> q_answer q \<noteq> None)"

section \<open>Grading\<close>

text \<open>
  The body of the grading loop for one question \<open>q\<close> and its submitted answer
  \<open>user_raw\<close>: the value of \<open>pass_mark\<close> when the \<open>if\<close>/\<open>elif\<close> chain is left.
\<close>

definition pass_mark :: "question \<Rightarrow> jval \<Rightarrow> bool" where
  "pass_mark q user_raw =
    (let correct_raw = dict_get (q_answer q) JNull;
         correct = normalize_answer correct_raw;
         user = normalize_answer user_raw;
         qt = dict_get (q_type q) JNull
     in if py_in qt [JStr ''short_answer'', JStr ''fill_blank''] then user = correct
        else if py_eq qt (JStr ''multiple_choice'') then normalize_answer user_raw = correct
        else if py_eq qt (JStr ''true_false'')
          then (user = ''true'' \<or> user = ''false'') \<and> user = correct
        else user = correct)"

datatype py_error = IndexError | TypeError

text \<open>
  The loop \<open>for i, q in enumerate(questions)\<close> with \<open>user_answers[i]\<close>: the list of
  marks and the score; reading past the end of \<open>user_answers\<close> raises.
\<close>

fun grade :: "question list \<Rightarrow> jval list \<Rightarrow> py_error + (bool list \<times> nat)" where
  "grade [] us = Inr ([], 0)"
| "grade (q # qs) [] = Inl IndexError"
| "grade (q # qs) (u # us) =
    (case grade qs us of
       Inl e \<Rightarrow> Inl e
     | Inr (marks, score) \<Rightarrow>
         let m = pass_mark q u in Inr (m # marks, (if m then score + 1 else score)))"

section \<open>Filter engine\<close>

text \<open>
  \<^verbatim>\<open>
  def collect_questions_from_blocks(blocks, selected_topic, selected_grade):
      out = []
      for b in blocks:
          if (selected_topic in (None, "All") or b.get("topic") == selected_topic) and \
             (selected_grade in (None, "All") or b.get("grade") == selected_grade):
              qs = b.get("questions", [])
              for q in qs:
                  if "type" in q and "question" in q and "answer" in q:
                      out.append(q)
      return out
  \<close>
\<close>

definition block_selected :: "block \<Rightarrow> jval \<Rightarrow> jval \<Rightarrow> bool" where
  "block_selected b selected_topic selected_grade =
    ((py_in selected_topic [JNull, JStr ''All''] \<or> py_eq (dict_get (b_topic b) JNull) selected_topic) \<and>
     (py_in selected_grade [JNull, JStr ''All''] \<or> py_eq (dict_get (b_grade b) JNull) selected_grade))"

fun append_questions :: "question list \<Rightarrow> question list \<Rightarrow> question list" where
  "append_questions out [] = out"
| "append_questions out (q # qs) =
    append_questions (if has_required_keys q then out @ [q] else out) qs"

fun collect_loop :: "question list \<Rightarrow> block list \<Rightarrow> jval \<Rightarrow> jval \<Rightarrow> question list" where
  "collect_loop out [] selected_topic selected_grade = out"
| "collect_loop out (b # bs) selected_topic selected_grade =
    collect_loop
      (if block_selected b selected_topic selected_grade
       then append_questions out (dict_get (b_questions b) [])
       else out)
      bs selected_topic selected_grade"

definition collect_questions_from_blocks :: "block list \<Rightarrow> jval \<Rightarrow> jval \<Rightarrow> question list" where
  "collect_questions_from_blocks blocks selected_topic selected_grade =
    collect_loop [] blocks selected_topic selected_grade"

text \<open>
  A set built by a comprehension, as the list of its members in the order they were
  first added: adding a value equal (\<open>==\<close>) to a member changes nothing.
\<close>

definition set_add :: "jval list \<Rightarrow> jval \<Rightarrow> jval list" where
  "set_add s x = (if list_ex (\<lambda>y. py_eq y x) s then s else s @ [x])"

definition py_set :: "jval list \<Rightarrow> jval list" where
  "py_set xs = foldl set_add [] xs"

text \<open>
  Python's \<open><\<close>: integers and booleans compare by value, strings by code points,
  anything else raises \<open>TypeError\<close> (\<open>None\<close> here).
\<close>

fun str_less :: "string \<Rightarrow> string \<Rightarrow> bool" where
  "str_less [] [] = False"
| "str_less [] (d # ds) = True"
| "str_less (c # cs) [] = False"
| "str_less (c # cs) (d # ds) =
    ((of_char c :: nat) < of_char d \<or> (c = d \<and> str_less cs ds))"

fun num_val :: "jval \<Rightarrow> int option" where
  "num_val (JBool b) = Some (if b then 1 else 0)"
| "num_val (JInt i) = Some i"
| "num_val _ = None"

fun py_less :: "jval \<Rightarrow> jval \<Rightarrow> bool option" where
  "py_less (JStr s) (JStr t) = Some (str_less s t)"
| "py_less a b =
    (case (num_val a, num_val b) of (Some i, Some j) \<Rightarrow> Some (i < j) | _ \<Rightarrow> None)"

text \<open>
  \<open>sorted\<close>, as a stable insertion sort that raises at the first comparison that does:
  a list of two or more values of mixed kinds raises, whatever the order of the
  comparisons, and a list of pairwise unequal comparable values has one sorted order.
\<close>

fun insort_py :: "jval \<Rightarrow> jval list \<Rightarrow> py_error + jval list" where
  "insort_py x [] = Inr [x]"
| "insort_py x (y # ys) =
    (case py_less y x of
       None \<Rightarrow> Inl TypeError
     | Some False \<Rightarrow> Inr (x # y # ys)
     | Some True \<Rightarrow> (case insort_py x ys of Inl e \<Rightarrow> Inl e | Inr zs \<Rightarrow> Inr (y # zs)))"

fun sorted_py :: "jval list \<Rightarrow> py_error + jval list" where
  "sorted_py [] = Inr []"
| "sorted_py (x # xs) = (case sorted_py xs of Inl e \<Rightarrow> Inl e | Inr ys \<Rightarrow> insort_py x ys)"

text \<open>
  \<^verbatim>\<open>
  def get_topics_and_grades(blocks):
      topics = sorted({b.get("topic", "General") for b in blocks})
      grades = sorted({b.get("grade", None) for b in blocks if "grade" in b})
      return topics, grades
  \<close>
\<close>

definition topic_values :: "block list \<Rightarrow> jval list" where
  "topic_values blocks = map (\<lambda>b. dict_get (b_topic b) (JStr ''General'')) blocks"

definition grade_values :: "block list \<Rightarrow> jval list" where
  "grade_values blocks =
    map (\<lambda>b. dict_get (b_grade b) JNull) (filter (\<lambda>b. b_grade b \<noteq> None) blocks)"

definition get_topics_and_grades :: "block list \<Rightarrow> py_error + (jval list \<times> jval list)" where
  "get_topics_and_grades blocks =
    (case sorted_py (py_set (topic_values blocks)) of
       Inl e \<Rightarrow> Inl e
     | Inr topics \<Rightarrow>
        (case sorted_py (py_set (grade_values blocks)) of
           Inl e \<Rightarrow> Inl e
         | Inr grades \<Rightarrow> Inr (topics, grades)))"

section \<open>Building a quiz\<close>

text \<open>
  The two sources of randomness are arguments. \<open>random.sample(all_qs, k)\<close> returns the
  members at \<open>k\<close> distinct positions, in some order: \<open>picks\<close> is that list of
  positions. \<open>random.shuffle\<close> of the group of type \<open>t\<close> is \<open>shuf t\<close>, a function that
  permutes its argument.
\<close>

definition valid_picks :: "nat \<Rightarrow> nat \<Rightarrow> nat list \<Rightarrow> bool" where
  "valid_picks n k picks = (length picks = k \<and> distinct picks \<and> list_all (\<lambda>i. i < n) picks)"

definition random_sample :: "'a list \<Rightarrow> nat list \<Rightarrow> 'a list" where
  "random_sample population picks = map (\<lambda>i. population ! i) picks"

definition is_shuffle :: "(jval \<Rightarrow> question list \<Rightarrow> question list) \<Rightarrow> bool" where
  "is_shuffle shuf = (\<forall>t qs. mset (shuf t qs) = mset qs)"

type_synonym type_groups = "(jval \<times> question list) list"

text \<open>\<open>type_groups.setdefault(q_type, []).append(q)\<close> on a dictionary kept in
  insertion order.\<close>

fun setdefault_append :: "type_groups \<Rightarrow> jval \<Rightarrow> question \<Rightarrow> type_groups" where
  "setdefault_append [] k q = [(k, [q])]"
| "setdefault_append ((k', qs) # rest) k q =
    (if py_eq k' k then (k', qs @ [q]) # rest else (k', qs) # setdefault_append rest k q)"

text \<open>\<open>q.get("type", "unknown")\<close>\<close>

definition type_or_unknown :: "question \<Rightarrow> jval" where
  "type_or_unknown q = dict_get (q_type q) (JStr ''unknown'')"

definition group_by_type :: "question list \<Rightarrow> type_groups" where
  "group_by_type selected =
    foldl (\<lambda>groups q. setdefault_append groups (type_or_unknown q) q) [] selected"

definition shuffle_groups :: "(jval \<Rightarrow> question list \<Rightarrow> question list) \<Rightarrow> type_groups \<Rightarrow> type_groups" where
  "shuffle_groups shuf groups = map (\<lambda>(t, qs). (t, shuf t qs)) groups"

text \<open>\<open>type_groups.get(q_type, [])\<close>\<close>

fun groups_get :: "type_groups \<Rightarrow> jval \<Rightarrow> question list" where
  "groups_get [] k = []"
| "groups_get ((k', qs) # rest) k = (if py_eq k' k then qs else groups_get rest k)"

definition type_order :: "jval list" where
  "type_order = [JStr ''multiple_choice'', JStr ''true_false'', JStr ''short_answer'',
                 JStr ''fill_blank'', JStr ''unknown'']"

definition flatten_groups :: "type_groups \<Rightarrow> question list" where
  "flatten_groups groups = concat (map (groups_get groups) type_order)"

definition build_questions ::
  "question list \<Rightarrow> nat list \<Rightarrow> (jval \<Rightarrow> question list \<Rightarrow> question list) \<Rightarrow> question list" where
  "build_questions all_qs picks shuf =
    flatten_groups (shuffle_groups shuf (group_by_type (random_sample all_qs picks)))"

section \<open>Session state and the two button handlers\<close>

record session_state =
  version :: int
  quiz_questions :: "question list"
  quiz_subject :: jval
  quiz_config :: "(string \<times> jval) list"

definition initial_session :: session_state where
  "initial_session = \<lparr>version = 0, quiz_questions = [], quiz_subject = JNull, quiz_config = []\<rparr>"

datatype feedback = No_questions_warning | Rerun

text \<open>\<open>chosen_topic if chosen_topic != "All" else None\<close>\<close>

definition all_to_none :: "jval \<Rightarrow> jval" where
  "all_to_none chosen = (if \<not> py_eq chosen (JStr ''All'') then chosen else JNull)"

text \<open>The body of \<open>if st.button("Start Quiz")\<close> in the tab of \<open>subject\<close>, whose blocks
  are \<open>blocks\<close>.\<close>

definition start_quiz ::
  "block list \<Rightarrow> jval \<Rightarrow> jval \<Rightarrow> jval \<Rightarrow> nat list \<Rightarrow> (jval \<Rightarrow> question list \<Rightarrow> question list)
    \<Rightarrow> session_state \<Rightarrow> feedback \<times> session_state" where
  "start_quiz blocks subject chosen_topic chosen_grade picks shuf st =
    (let all_qs = collect_questions_from_blocks blocks (all_to_none chosen_topic) (all_to_none chosen_grade)
     in if all_qs = [] then (No_questions_warning, st)
        else (Rerun,
              st\<lparr>quiz_questions := build_questions all_qs picks shuf,
                 quiz_subject := subject,
                 quiz_config := [(''topic'', chosen_topic), (''grade'', chosen_grade)],
                 version := version st + 1\<rparr>))"

text \<open>The body of \<open>if st.button("New Set of Questions")\<close>.\<close>

definition reset_quiz :: "session_state \<Rightarrow> feedback \<times> session_state" where
  "reset_quiz st =
    (Rerun, st\<lparr>quiz_questions := [], quiz_subject := JNull, quiz_config := [], version := version st + 1\<rparr>)"

text \<open>
  The application: the catalog \<open>subjects_data\<close>, loaded once, and the session state. A
  click on the start button of tab \<open>i\<close> runs \<open>start_quiz\<close> on that tab's subject; the
  reset button is drawn, and so can be clicked, only while
  \<open>quiz_questions and quiz_subject\<close> is true.
\<close>

record app =
  subjects_data :: "(jval \<times> block list) list"
  session :: session_state

fun truthy :: "jval \<Rightarrow> bool" where
  "truthy JNull = False"
| "truthy (JBool b) = b"
| "truthy (JInt i) = (i \<noteq> 0)"
| "truthy (JStr s) = (s \<noteq> [])"

datatype action =
    Click_start nat jval jval "nat list" "jval \<Rightarrow> question list \<Rightarrow> question list"
  | Click_reset

fun step :: "app \<Rightarrow> action \<Rightarrow> app" where
  "step a (Click_start i chosen_topic chosen_grade picks shuf) =
    (if i < length (subjects_data a)
     then (case subjects_data a ! i of
             (subject, blocks) \<Rightarrow>
               a\<lparr>session := snd (start_quiz blocks subject chosen_topic chosen_grade picks shuf (session a))\<rparr>)
     else a)"
| "step a Click_reset =
    (if quiz_questions (session a) \<noteq> [] \<and> truthy (quiz_subject (session a))
     then a\<lparr>session := snd (reset_quiz (session a))\<rparr>
     else a)"

definition run :: "app \<Rightarrow> action list \<Rightarrow> app" where
  "run a acts = foldl step a acts"

section \<open>Notions used to state the properties\<close>

text \<open>The value both sides of \<open>==\<close> are compared by: a boolean counts as its integer.\<close>

fun canon :: "jval \<Rightarrow> jval" where
  "canon (JBool b) = JInt (if b then 1 else 0)"
| "canon v = v"

text \<open>The position of a question's type in the fixed order of the flattening loop
  (5 for a type that is none of the five).\<close>

definition type_rank :: "question \<Rightarrow> nat" where
  "type_rank q = length (takeWhile (\<lambda>t. t \<noteq> type_or_unknown q) type_order)"

text \<open>The capital of a small letter where it is one character of the model: a to z,
  and the Latin-1 small letters 224 to 254 but the division sign 247, move down by 32.\<close>

definition upper_char :: "char \<Rightarrow> char" where
  "upper_char c =
    (let n = (of_char c :: nat)
     in if (97 \<le> n \<and> n \<le> 122) \<or> (224 \<le> n \<and> n \<le> 254 \<and> n \<noteq> 247) then char_of (n - 32) else c)"






text \<open>Kinds of values, and lists that \<open>sorted\<close> accepts: all strings, or all numbers.\<close>

fun is_str :: "jval \<Rightarrow> bool" where
  "is_str (JStr s) = True"
| "is_str _ = False"

definition is_number :: "jval \<Rightarrow> bool" where
  "is_number v = (num_val v \<noteq> None)"

definition strictly_ascending :: "jval list \<Rightarrow> bool" where
  "strictly_ascending xs = sorted_wrt (\<lambda>a b. py_less a b = Some True) xs"

definition one_kind :: "jval list \<Rightarrow> bool" where
  "one_kind xs = (list_all is_str xs \<or> list_all is_number xs)"

text \<open>\<open>a <= b\<close> as \<open>not (b < a)\<close>, where the comparison does not raise.\<close>

abbreviation (input) py_le :: "jval \<Rightarrow> jval \<Rightarrow> bool" where
  "py_le a b \<equiv> py_less b a = Some False"

text \<open>The typing of the data model: every topic is a string, and the declared grades
  of a subject are all strings or all numbers.\<close>

definition text_topics :: "block list \<Rightarrow> bool" where
  "text_topics blocks = list_all is_str (topic_values blocks)"

definition comparable_grades :: "block list \<Rightarrow> bool" where
  "comparable_grades blocks = one_kind (grade_values blocks)"

subsection \<open>Sample data\<close>

definition q_sa :: question where
  "q_sa = \<lparr>q_type = Some (JStr ''short_answer''), q_question = Some (JStr ''Capital of France?''),
           q_answer = Some (JStr ''Paris''), q_choices = None\<rparr>"

definition q_tf :: question where
  "q_tf = \<lparr>q_type = Some (JStr ''true_false''), q_question = Some (JStr ''2+2=4''),
           q_answer = Some (JStr ''True''), q_choices = None\<rparr>"

definition q_mc :: question where
  "q_mc = \<lparr>q_type = Some (JStr ''multiple_choice''), q_question = Some (JStr ''3*3?''),
           q_answer = Some (JInt 9), q_choices = Some [JInt 6, JInt 9]\<rparr>"

definition q_blank_key :: question where
  "q_blank_key = \<lparr>q_type = Some (JStr ''fill_blank''), q_question = Some (JStr ''___''),
           q_answer = Some (JStr ''  ''), q_choices = None\<rparr>"

definition q_essay :: question where
  "q_essay = \<lparr>q_type = Some (JStr ''essay''), q_question = Some (JStr ''Describe a tree.''),
           q_answer = Some (JStr ''any''), q_choices = None\<rparr>"



definition q_incomplete :: question where
  "q_incomplete = \<lparr>q_type = Some (JStr ''short_answer''), q_question = Some (JStr ''3+3?''),
           q_answer = None, q_choices = None\<rparr>"

definition block_no_topic :: block where
  "block_no_topic = \<lparr>b_subject = Some (JStr ''Math''), b_topic = None, b_grade = None,
       b_questions = Some [q_sa]\<rparr>"

definition block_algebra :: block where
  "block_algebra = \<lparr>b_subject = Some (JStr ''Math''), b_topic = Some (JStr ''Algebra''),
       b_grade = Some (JInt 7), b_questions = Some [q_incomplete, q_sa, q_tf, q_mc]\<rparr>"

definition block_essay :: block where
  "block_essay = \<lparr>b_subject = Some (JStr ''English''), b_topic = Some (JStr ''Writing''),
       b_grade = Some (JInt 7), b_questions = Some [q_essay]\<rparr>"

definition block_algebra3 :: block where
  "block_algebra3 = \<lparr>b_subject = Some (JStr ''Math''), b_topic = Some (JStr ''Algebra''),
       b_grade = Some (JInt 3), b_questions = Some [q_blank_key]\<rparr>"

definition app0 :: app where
  "app0 = \<lparr>subjects_data = [(JStr ''Math'', [block_algebra, block_no_topic])], session = initial_session\<rparr>"

definition clicks0 :: "action list" where
  "clicks0 = [Click_start 0 (JStr ''All'') (JInt 7) [2, 0, 1] (\<lambda>t. rev),
              Click_start 0 (JStr ''Geometry'') (JStr ''All'') [] (\<lambda>t. rev),
              Click_reset]"

section \<open>Normalisation and grading\<close>

lemma is_space_lower_char [simp]: "is_space (lower_char c) = is_space c"
  by (auto simp: is_space_def lower_char_def Let_def)

lemma lower_lower_char [simp]: "lower_char (lower_char c) = lower_char c"
  by (auto simp: lower_char_def Let_def)

lemma lower_upper_char [simp]: "lower_char (upper_char c) = lower_char c"
proof -
  have "(of_char c :: nat) < 256" by simp
  then show ?thesis
    by (auto simp: lower_char_def upper_char_def Let_def)
qed




lemma strip_all_space: "list_all is_space s \<Longrightarrow> py_strip s = []"
  by (auto simp: py_strip_def list_all_iff dest: set_dropWhileD)





lemma normalize_blank:
  "u = JNull \<or> (\<exists>s. u = JStr s \<and> list_all is_space s) \<Longrightarrow> normalize_answer u = []"
  by (auto simp: normalize_answer_def strip_all_space py_lower_def)

text \<open>
  C5. For a question whose type is \<open>true_false\<close> and any submitted value, the answer is
  marked correct exactly when the normalised submission is \<open>"true"\<close> or \<open>"false"\<close> and
  equals the normalised stored answer. A submission that normalises to anything else is
  marked incorrect, also when it equals the stored answer after normalisation.
\<close>

theorem true_false_grading:
  assumes "q_type q = Some (JStr ''true_false'')"
  shows "pass_mark q u =
     ((normalize_answer u = ''true'' \<or> normalize_answer u = ''false'') \<and>
      normalize_answer u = normalize_answer (dict_get (q_answer q) JNull))"
  using assms by (simp add: pass_mark_def dict_get_def py_in_def Let_def)

theorem true_false_grading_witness:
  "pass_mark q_tf (JStr ''TRUE '') \<and> \<not> pass_mark q_tf (JStr ''yes'') \<and>
   \<not> pass_mark (q_tf\<lparr>q_answer := Some (JStr ''Yes'')\<rparr>) (JStr ''yes'')"
proof -
  have t: "q_type q_tf = Some (JStr ''true_false'')"
    and t': "q_type (q_tf\<lparr>q_answer := Some (JStr ''Yes'')\<rparr>) = Some (JStr ''true_false'')"
    by (simp_all add: q_tf_def)
  have "normalize_answer (JStr ''TRUE '') = ''true''" "normalize_answer (JStr ''yes'') = ''yes''"
    "normalize_answer (dict_get (q_answer q_tf) JNull) = ''true''"
    by code_simp+
  then show ?thesis
    using true_false_grading [OF t, of "JStr ''TRUE ''"] true_false_grading [OF t, of "JStr ''yes''"]
      true_false_grading [OF t', of "JStr ''yes''"]
    by simp
qed






text \<open>
  C10. For a question of any type but \<open>true_false\<close>, a submission that is \<open>None\<close> or
  consists of whitespace only is marked correct exactly when the stored answer
  normalises to the empty string.
\<close>

theorem blank_submission:
  assumes "\<not> py_eq (dict_get (q_type q) JNull) (JStr ''true_false'')"
    and "u = JNull \<or> (\<exists>s. u = JStr s \<and> list_all is_space s)"
  shows "pass_mark q u = (normalize_answer (dict_get (q_answer q) JNull) = [])"
  using normalize_blank [OF assms(2)] assms(1)
  by (auto simp: pass_mark_def Let_def)

theorem blank_submission_witness:
  "pass_mark q_blank_key (JStr '' '') \<and> \<not> pass_mark q_sa JNull"
proof -
  have t: "\<not> py_eq (dict_get (q_type q_blank_key) JNull) (JStr ''true_false'')"
    and t': "\<not> py_eq (dict_get (q_type q_sa) JNull) (JStr ''true_false'')"
    by code_simp+
  have u: "JStr '' '' = JNull \<or> (\<exists>s. JStr '' '' = JStr s \<and> list_all is_space s)"
    by (simp add: is_space_def)
  have u': "JNull = JNull \<or> (\<exists>s. JNull = JStr s \<and> list_all is_space s)"
    by simp
  have "normalize_answer (dict_get (q_answer q_blank_key) JNull) = []"
    "normalize_answer (dict_get (q_answer q_sa) JNull) = ''paris''"
    by code_simp+
  then show ?thesis
    using blank_submission [OF t u] blank_submission [OF t' u'] by simp
qed

section \<open>Filter engine\<close>

lemma append_questions_filter: "append_questions out qs = out @ filter has_required_keys qs"
  by (induction qs arbitrary: out) auto

lemma collect_loop_concat:
  "collect_loop out bs t g =
     out @ concat (map (\<lambda>b. if block_selected b t g
                             then filter has_required_keys (dict_get (b_questions b) []) else []) bs)"
  by (induction bs arbitrary: out) (auto simp: append_questions_filter)

text \<open>
  C7. With both filters \<open>None\<close>, \<open>collect_questions_from_blocks\<close> returns the questions
  that have the three keys \<open>type\<close>, \<open>question\<close> and \<open>answer\<close>, of every block, in block
  order and in the order they have in their block, duplicates kept; a question that
  lacks one of the three keys is left out.
\<close>

theorem collect_no_filter:
  "collect_questions_from_blocks blocks JNull JNull =
     concat (map (\<lambda>b. filter has_required_keys (dict_get (b_questions b) [])) blocks)"
  by (simp add: collect_questions_from_blocks_def collect_loop_concat block_selected_def py_in_def)

theorem collect_no_filter_witness:
  "collect_questions_from_blocks [block_algebra, block_no_topic] JNull JNull = [q_sa, q_tf, q_mc, q_sa]"
  using collect_no_filter [of "[block_algebra, block_no_topic]"]
  by (simp add: block_algebra_def block_no_topic_def dict_get_def has_required_keys_def
      q_sa_def q_tf_def q_mc_def q_incomplete_def)

text \<open>
  C2. The claim: a block without a \<open>topic\<close> key counts as topic \<open>"General"\<close>, so the
  filter \<open>"General"\<close> selects it. \<open>get_topics_and_grades\<close> does list \<open>"General"\<close> for such a
  block, but \<open>collect_questions_from_blocks\<close> compares \<open>b.get("topic")\<close>, which is
  \<open>None\<close>, with \<open>"General"\<close>: the block is not selected and no question is returned.
\<close>

theorem general_topic_not_matched:
  "get_topics_and_grades [block_no_topic] = Inr ([JStr ''General''], []) \<and>
   collect_questions_from_blocks [block_no_topic] JNull JNull = [q_sa] \<and>
   collect_questions_from_blocks [block_no_topic] (JStr ''General'') JNull = []"
  by code_simp

section \<open>Starting a quiz\<close>

text \<open>
  C4. When no question matches the chosen topic and grade, the start handler gives the
  warning and returns the session state it was given: questions, subject, filter
  configuration and version are unchanged.
\<close>

theorem empty_pool_start:
  assumes "collect_questions_from_blocks blocks (all_to_none chosen_topic) (all_to_none chosen_grade) = []"
  shows "start_quiz blocks subject chosen_topic chosen_grade picks shuf st = (No_questions_warning, st)"
  using assms by (simp add: start_quiz_def)

theorem empty_pool_start_witness:
  "start_quiz [block_algebra] (JStr ''Math'') (JStr ''Geometry'') (JStr ''All'') [] (\<lambda>t qs. qs) initial_session
     = (No_questions_warning, initial_session)"
proof -
  have "collect_questions_from_blocks [block_algebra] (all_to_none (JStr ''Geometry''))
          (all_to_none (JStr ''All'')) = []"
    by code_simp
  then show ?thesis by (rule empty_pool_start)
qed

section \<open>The session builder\<close>

lemma py_eq_canon: "py_eq a b = (canon a = canon b)"
  by (cases a; cases b) auto

lemma py_eq_str [simp]: "py_eq v (JStr s) = (v = JStr s)"
  by (cases v) auto

lemma groups_get_setdefault:
  "groups_get (setdefault_append g k q) t = groups_get g t @ (if py_eq k t then [q] else [])"
  by (induction g k q rule: setdefault_append.induct) (auto simp: py_eq_canon)

lemma groups_get_foldl:
  "groups_get (foldl (\<lambda>groups q. setdefault_append groups (type_or_unknown q) q) g sel) t =
     groups_get g t @ filter (\<lambda>q. py_eq (type_or_unknown q) t) sel"
  by (induction sel arbitrary: g) (auto simp: groups_get_setdefault)

lemma groups_get_group_by_type:
  "groups_get (group_by_type sel) t = filter (\<lambda>q. py_eq (type_or_unknown q) t) sel"
  using groups_get_foldl [of "[]" sel t]
  by (simp add: group_by_type_def type_or_unknown_def)

lemma groups_get_shuffle:
  "is_shuffle shuf \<Longrightarrow> mset (groups_get (shuffle_groups shuf g) t) = mset (groups_get g t)"
  by (induction g) (auto simp: shuffle_groups_def is_shuffle_def)

lemma shuffled_group:
  assumes "is_shuffle shuf"
  shows "mset (groups_get (shuffle_groups shuf (group_by_type sel)) (JStr s)) =
         mset (filter (\<lambda>q. type_or_unknown q = JStr s) sel)"
  by (simp add: groups_get_shuffle [OF assms] groups_get_group_by_type)

lemma sum_filter_by_key:
  "distinct ts \<Longrightarrow>
   (\<Sum>t\<leftarrow>ts. mset (filter (\<lambda>q. f q = t) sel)) = mset (filter (\<lambda>q. f q \<in> set ts) sel)"
proof (induction ts)
  case Nil
  then show ?case by simp
next
  case (Cons a ts)
  have "mset (filter (\<lambda>q. f q = a) sel) + mset (filter (\<lambda>q. f q \<in> set ts) sel)
        = mset (filter (\<lambda>q. f q = a \<or> f q \<in> set ts) sel)"
    using Cons.prems by (induction sel) auto
  with Cons show ?case by simp
qed

lemma type_order_strs: "t \<in> set type_order \<Longrightarrow> \<exists>s. t = JStr s"
  by (auto simp: type_order_def)

lemma build_questions_mset:
  assumes "is_shuffle shuf"
  shows "mset (build_questions pool picks shuf) =
         mset (filter (\<lambda>q. type_or_unknown q \<in> set type_order) (random_sample pool picks))"
proof -
  let ?sel = "random_sample pool picks"
  let ?G = "groups_get (shuffle_groups shuf (group_by_type ?sel))"
  have g: "mset (?G t) = mset (filter (\<lambda>q. type_or_unknown q = t) ?sel)" if "t \<in> set type_order" for t
    using type_order_strs [OF that] shuffled_group [OF assms] by auto
  have "mset (build_questions pool picks shuf) = (\<Sum>t\<leftarrow>type_order. mset (?G t))"
    by (simp add: build_questions_def flatten_groups_def mset_concat comp_def)
  also have "\<dots> = (\<Sum>t\<leftarrow>type_order. mset (filter (\<lambda>q. type_or_unknown q = t) ?sel))"
    using g by (intro arg_cong [where f = sum_list] map_cong) auto
  also have "\<dots> = mset (filter (\<lambda>q. type_or_unknown q \<in> set type_order) ?sel)"
    by (rule sum_filter_by_key) (simp add: type_order_def)
  finally show ?thesis .
qed

lemma build_questions_length_known_types:
  assumes "is_shuffle shuf" "valid_picks (length pool) (min 10 (length pool)) picks"
    and "\<forall>q\<in>set pool. type_or_unknown q \<in> set type_order"
  shows "length (build_questions pool picks shuf) = min 10 (length pool)"
proof -
  have "set (random_sample pool picks) \<subseteq> set pool"
    using assms(2) by (auto simp: random_sample_def valid_picks_def list_all_iff)
  then have "filter (\<lambda>q. type_or_unknown q \<in> set type_order) (random_sample pool picks) = random_sample pool picks"
    using assms(3) by (auto simp: filter_id_conv)
  then have "mset (build_questions pool picks shuf) = mset (random_sample pool picks)"
    using build_questions_mset [OF assms(1), of pool picks] by simp
  then have "length (build_questions pool picks shuf) = length (random_sample pool picks)"
    by (metis size_mset)
  then show ?thesis using assms(2) by (simp add: random_sample_def valid_picks_def)
qed

lemma sorted_constant: "\<forall>q\<in>set a. r q = (k::nat) \<Longrightarrow> sorted (map r a)"
  by (induction a) auto

lemma sorted_ranked_groups:
  assumes "\<forall>q\<in>set a. r q = (0::nat)" "\<forall>q\<in>set b. r q = 1" "\<forall>q\<in>set c. r q = 2"
    "\<forall>q\<in>set d. r q = 3" "\<forall>q\<in>set e. r q = 4"
  shows "sorted (map r (a @ b @ c @ d @ e))"
proof -
  have "sorted (map r a)" "sorted (map r b)" "sorted (map r c)" "sorted (map r d)" "sorted (map r e)"
    using assms by (blast intro: sorted_constant)+
  then show ?thesis using assms by (auto simp: sorted_append)
qed

lemma group_members:
  assumes "is_shuffle shuf"
  shows "set (groups_get (shuffle_groups shuf (group_by_type sel)) (JStr s)) \<subseteq> {q. type_or_unknown q = JStr s}"
proof -
  have "set (groups_get (shuffle_groups shuf (group_by_type sel)) (JStr s))
        = set (filter (\<lambda>q. type_or_unknown q = JStr s) sel)"
    using shuffled_group [OF assms, of sel s] by (metis set_mset_mset)
  then show ?thesis by auto
qed

lemma rank_of_type:
  "type_or_unknown q = JStr ''multiple_choice'' \<Longrightarrow> type_rank q = 0"
  "type_or_unknown q = JStr ''true_false'' \<Longrightarrow> type_rank q = 1"
  "type_or_unknown q = JStr ''short_answer'' \<Longrightarrow> type_rank q = 2"
  "type_or_unknown q = JStr ''fill_blank'' \<Longrightarrow> type_rank q = 3"
  "type_or_unknown q = JStr ''unknown'' \<Longrightarrow> type_rank q = 4"
  by (simp_all add: type_rank_def type_order_def)

lemma build_questions_sorted:
  assumes "is_shuffle shuf"
  shows "sorted (map type_rank (build_questions pool picks shuf))"
proof -
  let ?G = "groups_get (shuffle_groups shuf (group_by_type (random_sample pool picks)))"
  note m = group_members [OF assms, of "random_sample pool picks"]
  have eq: "build_questions pool picks shuf =
      ?G (JStr ''multiple_choice'') @ ?G (JStr ''true_false'') @ ?G (JStr ''short_answer'') @
      ?G (JStr ''fill_blank'') @ ?G (JStr ''unknown'')"
    by (simp add: build_questions_def flatten_groups_def type_order_def)
  have "\<forall>q\<in>set (?G (JStr ''multiple_choice'')). type_rank q = 0"
    using m [of "''multiple_choice''"] rank_of_type(1) by blast
  moreover have "\<forall>q\<in>set (?G (JStr ''true_false'')). type_rank q = 1"
    using m [of "''true_false''"] rank_of_type(2) by blast
  moreover have "\<forall>q\<in>set (?G (JStr ''short_answer'')). type_rank q = 2"
    using m [of "''short_answer''"] rank_of_type(3) by blast
  moreover have "\<forall>q\<in>set (?G (JStr ''fill_blank'')). type_rank q = 3"
    using m [of "''fill_blank''"] rank_of_type(4) by blast
  moreover have "\<forall>q\<in>set (?G (JStr ''unknown'')). type_rank q = 4"
    using m [of "''unknown''"] rank_of_type(5) by blast
  ultimately show ?thesis unfolding eq by (rule sorted_ranked_groups)
qed


text \<open>
  C3. Whenever the start handler runs on a non-empty pool, with any sample and any
  shuffles, the stored question list is the concatenation, in the fixed order
  \<open>multiple_choice\<close>, \<open>true_false\<close>, \<open>short_answer\<close>, \<open>fill_blank\<close>, \<open>unknown\<close>, of one
  group per type, each group a permutation of the sampled questions of that type (an
  empty group adds nothing); so the positions of the types in the fixed order never
  decrease along the list.
\<close>

theorem grouped_in_fixed_order:
  assumes "collect_questions_from_blocks blocks (all_to_none chosen_topic) (all_to_none chosen_grade) = pool"
    and "pool \<noteq> []" and "is_shuffle shuf"
  shows "\<exists>G. quiz_questions (snd (start_quiz blocks subject chosen_topic chosen_grade picks shuf st))
            = concat (map G type_order) \<and>
          (\<forall>t\<in>set type_order.
             mset (G t) = mset (filter (\<lambda>q. type_or_unknown q = t) (random_sample pool picks))) \<and>
          sorted (map type_rank (concat (map G type_order)))"
proof -
  let ?G = "groups_get (shuffle_groups shuf (group_by_type (random_sample pool picks)))"
  have q: "quiz_questions (snd (start_quiz blocks subject chosen_topic chosen_grade picks shuf st))
        = build_questions pool picks shuf"
    using assms(1,2) by (simp add: start_quiz_def)
  have c: "build_questions pool picks shuf = concat (map ?G type_order)"
    by (simp add: build_questions_def flatten_groups_def)
  have g: "\<forall>t\<in>set type_order. mset (?G t) = mset (filter (\<lambda>q. type_or_unknown q = t) (random_sample pool picks))"
    using shuffled_group [OF assms(3)] by (auto dest: type_order_strs)
  have s: "sorted (map type_rank (concat (map ?G type_order)))"
    using build_questions_sorted [OF assms(3), of pool picks] by (simp only: c)
  show ?thesis using q c g s by (intro exI [where x = ?G]) simp
qed

lemma is_shuffle_rev: "is_shuffle (\<lambda>t. rev)"
  by (simp add: is_shuffle_def)

theorem grouped_in_fixed_order_witness:
  "quiz_questions (snd (start_quiz [block_algebra] (JStr ''Math'') (JStr ''All'') (JInt 7) [2, 0, 1]
       (\<lambda>t. rev) initial_session)) = [q_mc, q_tf, q_sa] \<and>
   (\<exists>G. quiz_questions (snd (start_quiz [block_algebra] (JStr ''Math'') (JStr ''All'') (JInt 7) [2, 0, 1]
            (\<lambda>t. rev) initial_session))
            = concat (map G type_order) \<and>
          (\<forall>t\<in>set type_order.
             mset (G t) = mset (filter (\<lambda>q. type_or_unknown q = t) (random_sample [q_sa, q_tf, q_mc] [2, 0, 1]))) \<and>
          sorted (map type_rank (concat (map G type_order))))"
proof -
  have p: "collect_questions_from_blocks [block_algebra] (all_to_none (JStr ''All'')) (all_to_none (JInt 7))
       = [q_sa, q_tf, q_mc]"
    by code_simp
  have n: "[q_sa, q_tf, q_mc] \<noteq> []" by simp
  have e: "quiz_questions (snd (start_quiz [block_algebra] (JStr ''Math'') (JStr ''All'') (JInt 7) [2, 0, 1]
       (\<lambda>t. rev) initial_session)) = [q_mc, q_tf, q_sa]"
    by code_simp
  show ?thesis
    using e grouped_in_fixed_order [OF p n is_shuffle_rev] by blast
qed

text \<open>
  C1. The claim: on a non-empty pool the stored list has \<open>min(10, |pool|)\<close> questions,
  whatever their types. The flattening loop reads only the five groups it names, so a
  sampled question of any other type is dropped: on a pool of one question of type
  \<open>essay\<close> the handler stores an empty list (and still replaces the session), for the
  only possible sample and every shuffle. The rendering and grading loops do handle
  such a type, in their final \<open>else\<close> branch.
\<close>

theorem unlisted_type_dropped:
  "collect_questions_from_blocks [block_essay] (all_to_none (JStr ''All'')) (all_to_none (JStr ''All'')) = [q_essay] \<and>
   valid_picks (length [q_essay]) (min 10 (length [q_essay])) [0] \<and>
   (\<forall>shuf. start_quiz [block_essay] (JStr ''English'') (JStr ''All'') (JStr ''All'') [0] shuf initial_session
      = (Rerun, \<lparr>version = 1, quiz_questions = [], quiz_subject = JStr ''English'',
                 quiz_config = [(''topic'', JStr ''All''), (''grade'', JStr ''All'')]\<rparr>))"
proof -
  have p: "collect_questions_from_blocks [block_essay] (all_to_none (JStr ''All'')) (all_to_none (JStr ''All'')) = [q_essay]"
    by code_simp
  have v: "valid_picks (length [q_essay]) (min 10 (length [q_essay])) [0]"
    by (simp add: valid_picks_def)
  have b: "build_questions [q_essay] [0] shuf = []" for shuf
    by (simp add: build_questions_def random_sample_def group_by_type_def type_or_unknown_def
        dict_get_def q_essay_def shuffle_groups_def flatten_groups_def type_order_def)
  show ?thesis using p v b by (simp add: start_quiz_def initial_session_def)
qed

section \<open>Reset and the version counter\<close>

lemma step_catalog: "subjects_data (step a act) = subjects_data a"
  by (cases act) (auto split: prod.splits)

lemma start_quiz_version:
  "snd (start_quiz blocks subject ct cg picks shuf st) = st \<or>
   version (snd (start_quiz blocks subject ct cg picks shuf st)) = version st + 1"
  by (simp add: start_quiz_def Let_def)

lemma step_version:
  "session (step a act) = session a \<or> version (session (step a act)) = version (session a) + 1"
proof (cases act)
  case (Click_start i ct cg picks shuf)
  then show ?thesis
    using start_quiz_version by (auto split: prod.splits)
next
  case Click_reset
  then show ?thesis by (simp add: reset_quiz_def)
qed

lemma run_snoc: "run a (acts @ [act]) = step (run a acts) act"
  by (simp add: run_def)

lemma run_catalog: "subjects_data (run a acts) = subjects_data a"
  by (induction acts rule: rev_induct) (simp_all add: run_def step_catalog)

lemma run_version:
  "version (session a) \<le> version (session (run a acts)) \<and>
   (version (session (run a acts)) = version (session a) \<longrightarrow> session (run a acts) = session a)"
proof (induction acts rule: rev_induct)
  case Nil
  then show ?case by (simp add: run_def)
next
  case (snoc act acts)
  show ?case
    using snoc step_version [of "run a acts" act] unfolding run_snoc by auto
qed

text \<open>
  C9. The reset handler adds one to the version and clears the questions, the subject
  and the filter configuration; it does not touch the catalog. A start on a non-empty
  pool adds one to the version too. Over any sequence of clicks the catalog stays the
  same, the version never decreases, and it comes back to an earlier value only when
  the session state is that earlier state: each change of the session takes a new,
  larger version.
\<close>

theorem reset_and_version:
  "reset_quiz st = (Rerun, \<lparr>version = version st + 1, quiz_questions = [], quiz_subject = JNull, quiz_config = []\<rparr>) \<and>
   subjects_data (step a Click_reset) = subjects_data a \<and>
   (collect_questions_from_blocks blocks (all_to_none ct) (all_to_none cg) \<noteq> [] \<longrightarrow>
      version (snd (start_quiz blocks subject ct cg picks shuf st)) = version st + 1) \<and>
   subjects_data (run a acts) = subjects_data a \<and>
   version (session a) \<le> version (session (run a acts)) \<and>
   (version (session (run a acts)) = version (session a) \<longrightarrow> session (run a acts) = session a)"
  using run_version [of a acts]
  by (simp add: reset_quiz_def step_catalog run_catalog start_quiz_def)

theorem reset_and_version_witness:
  "reset_quiz initial_session =
     (Rerun, \<lparr>version = 1, quiz_questions = [], quiz_subject = JNull, quiz_config = []\<rparr>) \<and>
   version (snd (start_quiz [block_algebra] (JStr ''Math'') (JStr ''All'') (JInt 7) [2, 0, 1] (\<lambda>t. rev)
     initial_session)) = 1 \<and>
   subjects_data (run app0 clicks0) = subjects_data app0 \<and>
   version (session (run app0 clicks0)) = 2 \<and>
   version (session app0) \<le> version (session (run app0 clicks0))"
proof -
  have p: "collect_questions_from_blocks [block_algebra] (all_to_none (JStr ''All'')) (all_to_none (JInt 7)) \<noteq> []"
    by code_simp
  have v: "version (session (run app0 clicks0)) = 2"
    by code_simp
  show ?thesis
    using p v reset_and_version [of initial_session app0 "[block_algebra]" "JStr ''All''" "JInt 7"
        "JStr ''Math''" "[2, 0, 1]" "\<lambda>t. rev" clicks0]
    by (simp add: initial_session_def)
qed

section \<open>Topics and grades\<close>

lemma str_less_irrefl [simp]: "\<not> str_less s s"
  by (induction s) auto

lemma str_less_trans: "str_less a b \<Longrightarrow> str_less b c \<Longrightarrow> str_less a c"
proof (induction a b arbitrary: c rule: str_less.induct)
  case (4 x xs y ys)
  then show ?case by (cases c) auto
qed (auto elim: str_less.elims)

lemma str_less_total: "\<not> str_less a b \<Longrightarrow> a \<noteq> b \<Longrightarrow> str_less b a"
  by (induction a b rule: str_less.induct) (auto simp: not_less order_le_less)

lemma str_less_asym: "str_less a b \<Longrightarrow> \<not> str_less b a"
  using str_less_trans str_less_irrefl by blast

lemma py_less_asym: "py_less y x = Some True \<Longrightarrow> py_less x y = Some False"
  by (cases x; cases y) (auto simp: str_less_asym)

lemma py_le_trans:
  "py_less y x = Some False \<Longrightarrow> py_less z y = Some False \<Longrightarrow> py_less z x = Some False"
proof (cases x; cases y; cases z)
  fix a b c assume "x = JStr a" "y = JStr b" "z = JStr c"
    and "py_less y x = Some False" "py_less z y = Some False"
  then have "\<not> str_less b a" "\<not> str_less c b" by auto
  then have "\<not> str_less c a"
    by (metis str_less_total str_less_trans)
  then show ?thesis using \<open>x = JStr a\<close> \<open>z = JStr c\<close> by simp
qed (auto split: if_splits)

lemma py_le_neq_less:
  "py_less b a = Some False \<Longrightarrow> canon a \<noteq> canon b \<Longrightarrow> py_less a b = Some True"
  by (cases a; cases b) (auto simp: str_less_total split: if_splits)


lemma insort_py_mset: "insort_py x ys = Inr zs \<Longrightarrow> mset zs = add_mset x (mset ys)"
  by (induction ys arbitrary: zs) (auto split: option.splits bool.splits sum.splits)

lemma sorted_py_mset: "sorted_py xs = Inr ys \<Longrightarrow> mset ys = mset xs"
  by (induction xs arbitrary: ys) (auto split: sum.splits dest: insort_py_mset)

lemma insort_py_sorted:
  "insort_py x ys = Inr zs \<Longrightarrow> sorted_wrt py_le ys \<Longrightarrow> sorted_wrt py_le zs"
proof (induction ys arbitrary: zs)
  case Nil
  then show ?case by auto
next
  case (Cons y ys)
  show ?case
  proof (cases "py_less y x")
    case None
    with Cons.prems show ?thesis by simp
  next
    case (Some lt)
    show ?thesis
    proof (cases lt)
      case False
      with Some Cons.prems have zs: "zs = x # y # ys" and xy: "py_le x y" by auto
      have "py_le x w" if "w \<in> set ys" for w
        using that Cons.prems(2) xy py_le_trans [of y x w] by auto
      with zs xy Cons.prems(2) show ?thesis by auto
    next
      case True
      with Some Cons.prems obtain zs' where i: "insort_py x ys = Inr zs'" and zs: "zs = y # zs'"
        by (auto split: sum.splits)
      have s: "sorted_wrt py_le zs'" using Cons.IH [OF i] Cons.prems(2) by simp
      have "set zs' = insert x (set ys)"
        using insort_py_mset [OF i] by (metis set_mset_add_mset_insert set_mset_mset)
      moreover have "py_le y x" using Some True by (simp add: py_less_asym)
      ultimately show ?thesis using zs s Cons.prems(2) by auto
    qed
  qed
qed

lemma sorted_py_sorted: "sorted_py xs = Inr ys \<Longrightarrow> sorted_wrt py_le ys"
  by (induction xs arbitrary: ys) (auto split: sum.splits dest: insort_py_sorted)

lemma sorted_distinct_strict:
  "sorted_wrt py_le ys \<Longrightarrow> distinct (map canon ys) \<Longrightarrow> strictly_ascending ys"
  unfolding strictly_ascending_def
  by (induction ys) (auto intro: py_le_neq_less)

lemma set_add_canon: "set_add s x = (if canon x \<in> canon ` set s then s else s @ [x])"
  by (auto simp: set_add_def list_ex_iff py_eq_canon image_iff) metis+

lemma foldl_set_add:
  "distinct (map canon acc) \<Longrightarrow>
   distinct (map canon (foldl set_add acc xs)) \<and>
   set (foldl set_add acc xs) \<subseteq> set acc \<union> set xs \<and>
   canon ` set (foldl set_add acc xs) = canon ` (set acc \<union> set xs)"
proof (induction xs arbitrary: acc)
  case Nil
  then show ?case by simp
next
  case (Cons x xs)
  have d: "distinct (map canon (set_add acc x))"
    using Cons.prems by (auto simp: set_add_canon)
  have c: "canon ` set (set_add acc x) = canon ` (insert x (set acc))"
    by (auto simp: set_add_canon)
  have s: "set (set_add acc x) \<subseteq> insert x (set acc)"
    by (auto simp: set_add_canon)
  from Cons.IH [OF d] s c show ?case by (auto simp: image_Un)
qed

lemma py_set_props:
  "distinct (map canon (py_set xs))" "set (py_set xs) \<subseteq> set xs"
  "canon ` set (py_set xs) = canon ` set xs"
  using foldl_set_add [of "[]" xs] by (auto simp: py_set_def)

lemma py_less_one_kind:
  "is_str a \<Longrightarrow> is_str b \<Longrightarrow> py_less a b \<noteq> None"
  "is_number a \<Longrightarrow> is_number b \<Longrightarrow> py_less a b \<noteq> None"
  by (cases a; cases b; auto simp: is_number_def)+

lemma insort_py_total:
  "one_kind (x # ys) \<Longrightarrow> \<exists>zs. insort_py x ys = Inr zs"
proof (induction ys)
  case Nil
  then show ?case by simp
next
  case (Cons y ys)
  then have "one_kind (x # ys)" by (auto simp: one_kind_def)
  with Cons.IH obtain zs where "insort_py x ys = Inr zs" by blast
  moreover have "py_less y x \<noteq> None"
    using Cons.prems py_less_one_kind by (auto simp: one_kind_def)
  ultimately show ?case by (auto split: bool.splits)
qed

lemma sorted_py_total: "one_kind xs \<Longrightarrow> \<exists>ys. sorted_py xs = Inr ys"
proof (induction xs)
  case Nil
  then show ?case by simp
next
  case (Cons x xs)
  then have "one_kind xs" by (auto simp: one_kind_def)
  with Cons.IH obtain ys where ys: "sorted_py xs = Inr ys" by blast
  then have "set ys = set xs" using sorted_py_mset by (metis set_mset_mset)
  with Cons.prems have "one_kind (x # ys)" by (auto simp: one_kind_def list_all_iff)
  then show ?case using ys insort_py_total by auto
qed

lemma one_kind_py_set: "one_kind xs \<Longrightarrow> one_kind (py_set xs)"
  using py_set_props(2) [of xs] by (auto simp: one_kind_def list_all_iff)

lemma sorted_py_set:
  assumes "sorted_py (py_set xs) = Inr ys"
  shows "strictly_ascending ys" "set ys \<subseteq> set xs" "canon ` set ys = canon ` set xs"
proof -
  have m: "mset ys = mset (py_set xs)" using assms by (rule sorted_py_mset)
  then have s: "set ys = set (py_set xs)" by (metis set_mset_mset)
  have "mset (map canon ys) = mset (map canon (py_set xs))" using m by simp
  then have "distinct (map canon ys)"
    using py_set_props(1) [of xs] by (metis mset_eq_imp_distinct_iff)
  then show "strictly_ascending ys"
    using sorted_py_sorted [OF assms] by (simp add: sorted_distinct_strict)
  show "set ys \<subseteq> set xs" using s py_set_props(2) by simp
  show "canon ` set ys = canon ` set xs" using s py_set_props(3) by simp
qed


lemma grade_values_set: "set (grade_values blocks) = {v. \<exists>b\<in>set blocks. b_grade b = Some v}"
  by (auto simp: grade_values_def dict_get_def image_iff split: option.splits) force

lemma canon_General: "JStr ''General'' = canon v \<Longrightarrow> v = JStr ''General''"
  by (cases v) auto

text \<open>
  C8. When \<open>get_topics_and_grades\<close> returns, both lists are strictly ascending (so
  sorted and without duplicates), every grade in the result is the declared grade of
  some block, every declared grade and every topic is in the result (up to \<open>==\<close>), and
  \<open>"General"\<close> is a topic when some block has no \<open>topic\<close> key. It does return when the
  topics are strings and the declared grades are all strings or all numbers; on values
  of mixed kinds \<open>sorted\<close> raises \<open>TypeError\<close>.
\<close>

theorem topics_and_grades:
  "(get_topics_and_grades blocks = Inr (topics, grades) \<longrightarrow>
      strictly_ascending topics \<and> strictly_ascending grades \<and>
      set grades \<subseteq> {v. \<exists>b\<in>set blocks. b_grade b = Some v} \<and>
      (\<forall>b\<in>set blocks. \<forall>v. b_grade b = Some v \<longrightarrow> (\<exists>g\<in>set grades. py_eq g v)) \<and>
      (\<forall>b\<in>set blocks. \<forall>v. b_topic b = Some v \<longrightarrow> (\<exists>t\<in>set topics. py_eq t v)) \<and>
      ((\<exists>b\<in>set blocks. b_topic b = None) \<longrightarrow> JStr ''General'' \<in> set topics)) \<and>
   (text_topics blocks \<and> comparable_grades blocks \<longrightarrow>
      (\<exists>ts gs. get_topics_and_grades blocks = Inr (ts, gs)))"
proof (intro conjI impI)
  assume r: "get_topics_and_grades blocks = Inr (topics, grades)"
  then have t: "sorted_py (py_set (topic_values blocks)) = Inr topics"
    and g: "sorted_py (py_set (grade_values blocks)) = Inr grades"
    by (auto simp: get_topics_and_grades_def split: sum.splits)
  note T = sorted_py_set [OF t] and G = sorted_py_set [OF g]
  show "strictly_ascending topics" by (rule T(1))
  show "strictly_ascending grades" by (rule G(1))
  show "set grades \<subseteq> {v. \<exists>b\<in>set blocks. b_grade b = Some v}"
    using G(2) by (simp add: grade_values_set)
  show "\<forall>b\<in>set blocks. \<forall>v. b_grade b = Some v \<longrightarrow> (\<exists>g\<in>set grades. py_eq g v)"
  proof (intro ballI allI impI)
    fix b v assume "b \<in> set blocks" "b_grade b = Some v"
    then have "v \<in> set (grade_values blocks)" by (auto simp: grade_values_set)
    then have "canon v \<in> canon ` set grades" using G(3) by blast
    then show "\<exists>g\<in>set grades. py_eq g v" by (auto simp: py_eq_canon)
  qed
  show "\<forall>b\<in>set blocks. \<forall>v. b_topic b = Some v \<longrightarrow> (\<exists>t\<in>set topics. py_eq t v)"
  proof (intro ballI allI impI)
    fix b v assume "b \<in> set blocks" "b_topic b = Some v"
    then have "v \<in> set (topic_values blocks)" by (force simp: topic_values_def dict_get_def)
    then have "canon v \<in> canon ` set topics" using T(3) by blast
    then show "\<exists>t\<in>set topics. py_eq t v" by (auto simp: py_eq_canon)
  qed
  show "JStr ''General'' \<in> set topics" if "\<exists>b\<in>set blocks. b_topic b = None"
  proof -
    from that have "JStr ''General'' \<in> set (topic_values blocks)"
      by (force simp: topic_values_def dict_get_def)
    then have "canon (JStr ''General'') \<in> canon ` set topics" using T(3) by blast
    then show ?thesis by (auto dest: canon_General)
  qed
next
  assume w: "text_topics blocks \<and> comparable_grades blocks"
  then have "one_kind (topic_values blocks)" "one_kind (grade_values blocks)"
    by (simp_all add: text_topics_def comparable_grades_def one_kind_def)
  then have "one_kind (py_set (topic_values blocks))" "one_kind (py_set (grade_values blocks))"
    by (simp_all add: one_kind_py_set)
  then obtain ts gs where "sorted_py (py_set (topic_values blocks)) = Inr ts"
    "sorted_py (py_set (grade_values blocks)) = Inr gs"
    using sorted_py_total by blast
  then show "\<exists>ts gs. get_topics_and_grades blocks = Inr (ts, gs)"
    by (simp add: get_topics_and_grades_def)
qed

theorem topics_and_grades_witness:
  "get_topics_and_grades [block_algebra, block_no_topic, block_algebra3]
     = Inr ([JStr ''Algebra'', JStr ''General''], [JInt 3, JInt 7]) \<and>
   strictly_ascending [JStr ''Algebra'', JStr ''General''] \<and>
   strictly_ascending [JInt 3, JInt 7] \<and>
   JStr ''General'' \<in> set [JStr ''Algebra'', JStr ''General''] \<and>
   (\<exists>ts gs. get_topics_and_grades [block_algebra, block_no_topic, block_algebra3] = Inr (ts, gs))"
proof -
  have r: "get_topics_and_grades [block_algebra, block_no_topic, block_algebra3]
     = Inr ([JStr ''Algebra'', JStr ''General''], [JInt 3, JInt 7])"
    by code_simp
  have w: "text_topics [block_algebra, block_no_topic, block_algebra3] \<and>
           comparable_grades [block_algebra, block_no_topic, block_algebra3]"
    by code_simp
  have n: "\<exists>b\<in>set [block_algebra, block_no_topic, block_algebra3]. b_topic b = None"
    by (simp add: block_no_topic_def)
  show ?thesis
    using r w n topics_and_grades [of "[block_algebra, block_no_topic, block_algebra3]"
        "[JStr ''Algebra'', JStr ''General'']" "[JInt 3, JInt 7]"]
    by blast
qed

end
